theory Spec2Isabelle
  imports Main "HOL-Library.Word"
begin

section \<open>The misc character driver with a secret (ch12/miscdrv\_rdwr)\<close>

text \<open>
  A shallow embedding of \<^verbatim>\<open>ch12/miscdrv_rdwr/miscdrv_rdwr.c\<close>. The driver keeps one
  context structure holding a 128-byte secret and some counters; \<^verbatim>\<open>read\<close> hands the
  secret to user space, \<^verbatim>\<open>write\<close> replaces it.
\<close>

subsection \<open>Machine types and constants\<close>

type_synonym byte = "8 word"      \<comment> \<open>\<^verbatim>\<open>char\<close>\<close>
type_synonym c_int = "32 word"    \<comment> \<open>\<^verbatim>\<open>int\<close>, \<^verbatim>\<open>u32\<close>; read as signed with \<open>sint\<close>\<close>
type_synonym size_t = "64 word"   \<comment> \<open>\<^verbatim>\<open>size_t\<close>, \<^verbatim>\<open>u64\<close>\<close>

definition MAXBYTES :: nat where
  "MAXBYTES = 128"

text \<open>The errno values of the kernel headers (\<^verbatim>\<open>errno-base.h\<close>).\<close>

definition ENOMEM :: c_int where
  "ENOMEM = 12"

definition EFAULT :: c_int where
  "EFAULT = 14"

definition EINVAL :: c_int where
  "EINVAL = 22"

subsection \<open>The driver context\<close>

text \<open>\<^verbatim>\<open>struct drv_ctx\<close>, field by field.\<close>

record drv_ctx =
  tx :: c_int
  rx :: c_int
  err :: c_int
  myword :: c_int
  config1 :: c_int
  config2 :: c_int
  config3 :: size_t
  oursecret :: "byte list"

text \<open>
  The file-scope variables: \<^verbatim>\<open>static int ga, gb = 1;\<close> and the structure that the
  pointer \<^verbatim>\<open>ctx\<close> refers to once the module is initialised.
\<close>

record module_state =
  ga :: c_int
  gb :: c_int
  ctx :: drv_ctx

subsection \<open>Kernel library routines used by the driver\<close>

text \<open>
  These are routines of the kernel, not of the driver; they are written out after the
  kernel's \<^verbatim>\<open>lib/string.c\<close> and the contract of the user-copy helpers. A buffer is the
  list of its bytes.
\<close>

definition strlen :: "byte list \<Rightarrow> nat" where
  "strlen s = length (takeWhile (\<lambda>b. b \<noteq> 0) s)"

definition strnlen :: "byte list \<Rightarrow> nat \<Rightarrow> nat" where
  "strnlen s maxlen = length (takeWhile (\<lambda>b. b \<noteq> 0) (take maxlen s))"

definition memcpy :: "byte list \<Rightarrow> byte list \<Rightarrow> nat \<Rightarrow> byte list" where
  "memcpy dest src n = take n src @ drop n dest"

text \<open>
  \<^verbatim>\<open>strlcpy(dest, src, size)\<close>: \<^verbatim>\<open>ret = strlen(src)\<close>; when \<^verbatim>\<open>size\<close> is not zero,
  \<^verbatim>\<open>len = (ret >= size) ? size - 1 : ret\<close>, \<^verbatim>\<open>len\<close> bytes are copied and \<^verbatim>\<open>dest[len]\<close> is
  set to zero; the result is \<^verbatim>\<open>ret\<close>. With \<^verbatim>\<open>size = 0\<close> nothing is stored.

  When the source holds no zero byte among its bytes the scan of the C routine runs on
  past them; whatever length at least \<^verbatim>\<open>size\<close> it finds, \<^verbatim>\<open>len\<close> is \<^verbatim>\<open>size - 1\<close>, which is
  also what the length of the list gives here (the driver passes \<^verbatim>\<open>size\<close> equal to the
  length of the source).
\<close>

definition strlcpy :: "byte list \<Rightarrow> byte list \<Rightarrow> nat \<Rightarrow> byte list \<times> nat" where
  "strlcpy dest src sz =
     (let ret = strlen src in
      if sz \<noteq> 0 then
        (let len = (if ret \<ge> sz then sz - 1 else ret)
         in ((memcpy dest src len)[len := 0], ret))
      else (dest, ret))"

text \<open>
  User memory: a user pointer is modelled by the list of bytes that can be accessed
  from it on (an invalid pointer has none). Both helpers return the number of bytes
  that could not be copied, and the destination after the copy;
  \<^verbatim>\<open>copy_from_user\<close> zero-fills what it could not read.
\<close>

definition copy_to_user :: "byte list \<Rightarrow> byte list \<Rightarrow> nat \<Rightarrow> nat \<times> byte list" where
  "copy_to_user uto kfrom n =
     (let m = min n (length uto) in (n - m, take m kfrom @ drop m uto))"

definition copy_from_user :: "byte list \<Rightarrow> byte list \<Rightarrow> nat \<Rightarrow> nat \<times> byte list" where
  "copy_from_user kto ufrom n =
     (let m = min n (length ufrom)
      in (n - m, take m ufrom @ replicate (n - m) 0 @ drop n kto))"

text \<open>
  What \<^verbatim>\<open>kvmalloc\<close> hands back: \<^verbatim>\<open>NULL\<close> when it fails, for a request of zero bytes the
  kernel's \<^verbatim>\<open>ZERO_SIZE_PTR\<close>, which is not \<^verbatim>\<open>NULL\<close> and must not be dereferenced, and
  otherwise a buffer of the size asked for. The bytes of a fresh buffer are arbitrary;
  the driver's \<^verbatim>\<open>memset(kbuf, 0, count)\<close> follows at once, so the buffer is taken with
  its bytes already zero.
\<close>

datatype kptr = NULL | ZERO_SIZE_PTR | Buf "byte list"

definition kvmalloc :: "nat \<Rightarrow> bool \<Rightarrow> kptr" where
  "kvmalloc n ok =
     (if \<not> ok then NULL else if n = 0 then ZERO_SIZE_PTR else Buf (replicate n 0))"

text \<open>The calls of a \<^verbatim>\<open>write\<close> that acquire, fill and release the staging buffer.\<close>

datatype kcall = Kvmalloc nat bool | CopyFromUser nat | Kvfree

subsection \<open>The driver methods\<close>

text \<open>\<^verbatim>\<open>open_miscdrv_rdwr\<close>: \<^verbatim>\<open>ga++; gb--; return 0;\<close>\<close>

definition open_miscdrv_rdwr :: "module_state \<Rightarrow> int \<times> module_state" where
  "open_miscdrv_rdwr s = (0, s\<lparr>ga := ga s + 1, gb := gb s - 1\<rparr>)"

text \<open>\<^verbatim>\<open>close_miscdrv_rdwr\<close>: \<^verbatim>\<open>ga--; gb++; return 0;\<close>\<close>

definition close_miscdrv_rdwr :: "module_state \<Rightarrow> int \<times> module_state" where
  "close_miscdrv_rdwr s = (0, s\<lparr>ga := ga s - 1, gb := gb s + 1\<rparr>)"

text \<open>
  \<^verbatim>\<open>read_miscdrv_rdwr\<close> on the context \<open>c\<close>, the user buffer \<open>ubuf\<close> and \<open>count\<close>. The
  result is the value returned (\<^verbatim>\<open>int ret\<close> widened to \<^verbatim>\<open>ssize_t\<close>), the context and the
  user buffer afterwards.
\<close>

definition read_miscdrv_rdwr ::
  "drv_ctx \<Rightarrow> byte list \<Rightarrow> size_t \<Rightarrow> int \<times> drv_ctx \<times> byte list" where
  "read_miscdrv_rdwr c ubuf count =
     (let secret_len = (of_nat (strnlen (oursecret c) MAXBYTES) :: c_int) in
      if unat count < MAXBYTES then (sint (- EINVAL), c, ubuf)
      else if sint secret_len \<le> 0 then (sint (- EINVAL), c, ubuf)
      else
        (case copy_to_user ubuf (oursecret c) (unat secret_len) of
           (left, ubuf') \<Rightarrow>
             if left \<noteq> 0 then (sint (- EFAULT), c, ubuf')
             else (sint secret_len, c\<lparr>tx := tx c + secret_len\<rparr>, ubuf')))"

text \<open>
  \<^verbatim>\<open>write_miscdrv_rdwr\<close> on the context \<open>c\<close>; \<open>kvmalloc_ok\<close> says whether \<^verbatim>\<open>kvmalloc\<close>
  returns something other than \<^verbatim>\<open>NULL\<close>, \<open>ubuf\<close> is the user's source and \<open>count\<close> the
  requested length. \<^verbatim>\<open>int ret = count\<close> keeps the low 32 bits of \<open>count\<close>;
  \<^verbatim>\<open>ctx->rx += count\<close> adds in \<^verbatim>\<open>size_t\<close> and stores the low 32 bits.

  With \<open>count = 0\<close> the staging pointer is \<^verbatim>\<open>ZERO_SIZE_PTR\<close>: it passes the \<^verbatim>\<open>NULL\<close> test,
  \<^verbatim>\<open>memset\<close> and \<^verbatim>\<open>copy_from_user\<close> of zero bytes touch nothing and the copy returns 0,
  and then \<^verbatim>\<open>strlcpy\<close> begins with \<^verbatim>\<open>strlen(kbuf)\<close>, which reads through the pointer.
  The call faults there, before anything is stored in the context and before
  \<^verbatim>\<open>kvfree\<close>, and returns no value.

  The result is the value returned (\<open>None\<close> when the call faults), the context
  afterwards and the calls made on the staging buffer.
\<close>

definition write_miscdrv_rdwr ::
  "drv_ctx \<Rightarrow> bool \<Rightarrow> byte list \<Rightarrow> size_t \<Rightarrow> int option \<times> drv_ctx \<times> kcall list" where
  "write_miscdrv_rdwr c kvmalloc_ok ubuf count =
     (let ret = (ucast count :: c_int); n = unat count in
      if MAXBYTES < n then (Some (sint ret), c, [])
      else
        (case kvmalloc n kvmalloc_ok of
           NULL \<Rightarrow> (Some (sint (- ENOMEM)), c, [Kvmalloc n False])
         | ZERO_SIZE_PTR \<Rightarrow> (None, c, [Kvmalloc n True, CopyFromUser n])
         | Buf kbuf \<Rightarrow>
             (case copy_from_user kbuf ubuf n of
                (left, kbuf') \<Rightarrow>
                  if left \<noteq> 0
                  then (Some (sint (- EFAULT)), c,
                        [Kvmalloc n True, CopyFromUser n, Kvfree])
                  else
                    (let secret' = fst (strlcpy (oursecret c) kbuf'
                                          (if MAXBYTES < n then MAXBYTES else n));
                         c' = c\<lparr>oursecret := secret', rx := rx c + ucast count\<rparr>
                     in (Some (sint (ucast count :: c_int)), c',
                         [Kvmalloc n True, CopyFromUser n, Kvfree])))))"

text \<open>
  \<^verbatim>\<open>miscdrv_init\<close>: \<open>reg_ret\<close> is what \<^verbatim>\<open>misc_register\<close> returns and \<open>kzalloc_ok\<close> whether
  \<^verbatim>\<open>devm_kzalloc\<close> returns memory, which is zeroed. The string literal \<^verbatim>\<open>"initmsg"\<close> is
  seven characters and its terminator.
\<close>

definition initmsg :: "byte list" where
  "initmsg = [0x69, 0x6e, 0x69, 0x74, 0x6d, 0x73, 0x67]"

definition kzalloc_ctx :: drv_ctx where
  "kzalloc_ctx = \<lparr>tx = 0, rx = 0, err = 0, myword = 0, config1 = 0, config2 = 0,
                  config3 = 0, oursecret = replicate MAXBYTES 0\<rparr>"

definition miscdrv_init :: "c_int \<Rightarrow> bool \<Rightarrow> int \<times> drv_ctx option" where
  "miscdrv_init reg_ret kzalloc_ok =
     (if reg_ret \<noteq> 0 then (sint reg_ret, None)
      else if \<not> kzalloc_ok then (sint (- ENOMEM), None)
      else (0, Some (kzalloc_ctx\<lparr>oursecret :=
                       fst (strlcpy (oursecret kzalloc_ctx) (initmsg @ [0]) 8)\<rparr>)))"

subsection \<open>Reading a returned value\<close>

text \<open>
  A negative value returned by a method is an errno, anything else the number of
  bytes transferred.
\<close>

datatype error_kind = InvalidArgument | IOFault | ResourceExhausted | OtherErrno int

definition outcome :: "int \<Rightarrow> error_kind + nat" where
  "outcome r =
     (if r < 0 then
        Inl (if r = sint (- EINVAL) then InvalidArgument
             else if r = sint (- EFAULT) then IOFault
             else if r = sint (- ENOMEM) then ResourceExhausted
             else OtherErrno (- r))
      else Inr (nat r))"

subsection \<open>Sequences of file operations\<close>

datatype fop =
    Open
  | Close
  | Read "byte list" size_t
  | Write bool "byte list" size_t

text \<open>
  One call on the module state. The context after a write is the second component of
  its result, also when the write faults (it has stored nothing by then).
\<close>

fun fop_step :: "fop \<Rightarrow> module_state \<Rightarrow> module_state" where
  "fop_step Open s = snd (open_miscdrv_rdwr s)"
| "fop_step Close s = snd (close_miscdrv_rdwr s)"
| "fop_step (Read ubuf count) s = s\<lparr>ctx := fst (snd (read_miscdrv_rdwr (ctx s) ubuf count))\<rparr>"
| "fop_step (Write ok ubuf count) s =
     s\<lparr>ctx := fst (snd (write_miscdrv_rdwr (ctx s) ok ubuf count))\<rparr>"

definition run :: "fop list \<Rightarrow> module_state \<Rightarrow> module_state" where
  "run ops s = fold fop_step ops s"

text \<open>The state in which a successful \<^verbatim>\<open>miscdrv_init\<close> leaves the module.\<close>

definition attached :: "module_state \<Rightarrow> bool" where
  "attached s \<longleftrightarrow> ga s = 0 \<and> gb s = 1 \<and> snd (miscdrv_init 0 True) = Some (ctx s)"

inductive reachable :: "module_state \<Rightarrow> bool" where
  reachable_init: "attached s \<Longrightarrow> reachable s"
| reachable_step: "reachable s \<Longrightarrow> reachable (fop_step f s)"

text \<open>
  The secret as the driver relies on it: 128 bytes with a zero byte among them.
\<close>

definition secret_ok :: "byte list \<Rightarrow> bool" where
  "secret_ok s \<longleftrightarrow> length s = MAXBYTES \<and> strnlen s MAXBYTES < MAXBYTES"

subsection \<open>Concrete inputs\<close>

text \<open>
  The five characters of \<^verbatim>\<open>hello\<close> without a terminator, and the context and module
  state right after a successful initialisation.
\<close>

definition hello :: "byte list" where
  "hello = [0x68, 0x65, 0x6c, 0x6c, 0x6f]"

definition ctx_after_init :: drv_ctx where
  "ctx_after_init = the (snd (miscdrv_init 0 True))"

definition state_after_init :: module_state where
  "state_after_init = \<lparr>ga = 0, gb = 1, ctx = ctx_after_init\<rparr>"

text \<open>
  A full-size payload of 128 letters \<^verbatim>\<open>A\<close>, and the state after writing it 16777215
  times in a row to a freshly initialised module.
\<close>

definition payload128 :: "byte list" where
  "payload128 = replicate 128 0x41"

definition state_near_wrap :: module_state where
  "state_near_wrap = run (replicate 16777215 (Write True payload128 128)) state_after_init"

text \<open>
  The state after one such write and 16909320 reads of 128 bytes, each of which returns
  the 127 letters stored.
\<close>

definition state_tx_near_wrap :: module_state where
  "state_tx_near_wrap =
     run (Write True payload128 128 # replicate 16909320 (Read (replicate 128 0) 128))
       state_after_init"

section \<open>Auxiliary facts\<close>

subsection \<open>Conversions between the machine types\<close>

lemma sint_of_nat_small: "n < 2 ^ 31 \<Longrightarrow> sint (of_nat n :: c_int) = int n"
  by (simp add: signed_of_nat signed_take_bit_int_eq_self)

lemma unat_of_nat_small: "n < 2 ^ 32 \<Longrightarrow> unat (of_nat n :: c_int) = n"
  by (simp add: unat_of_nat)

lemma sint_ucast_small:
  assumes "unat (count :: size_t) < 2 ^ 31"
  shows "sint (ucast count :: c_int) = int (unat count)"
proof -
  have lo: "- (2 ^ 31) \<le> uint count"
    by (rule order_trans [of _ 0]) simp_all
  have "int (unat count) < int (2 ^ 31)"
    using assms by (simp only: of_nat_less_iff)
  then have hi: "uint count < 2 ^ 31"
    by simp
  have "sint (ucast count :: c_int) = signed_take_bit 31 (uint count)"
    by (simp add: signed_ucast_eq)
  also have "\<dots> = uint count"
    using lo hi by (rule signed_take_bit_int_eq_self)
  finally show ?thesis by simp
qed

lemma errno_values:
  "sint (- EINVAL) = - 22" "sint (- EFAULT) = - 14" "sint (- ENOMEM) = - 12"
  by (simp_all add: EINVAL_def EFAULT_def ENOMEM_def)

subsection \<open>The string routines\<close>

lemma strnlen_le: "strnlen s n \<le> n"
  unfolding strnlen_def
  by (rule order_trans [OF length_takeWhile_le]) simp

lemma take_min_takeWhile:
  "take (min (length (takeWhile P xs)) k) xs = takeWhile P (take k xs)"
proof (induction xs arbitrary: k)
  case Nil
  then show ?case by simp
next
  case (Cons x xs)
  show ?case
  proof (cases k)
    case 0
    then show ?thesis by simp
  next
    case (Suc j)
    with Cons [of j] show ?thesis by simp
  qed
qed

lemma strlcpy_len:
  "0 < sz \<Longrightarrow> (if sz \<le> strlen src then sz - 1 else strlen src) = min (strlen src) (sz - 1)"
  by auto

text \<open>
  What \<^verbatim>\<open>strlcpy\<close> leaves in the destination: the string found in the first
  \<open>sz - 1\<close> bytes of the source, a zero byte, and the old bytes behind it.
\<close>

lemma strlcpy_fst:
  assumes "0 < sz" and "sz \<le> length dest"
  shows "fst (strlcpy dest src sz) =
           takeWhile (\<lambda>b. b \<noteq> 0) (take (sz - 1) src)
             @ 0 # drop (Suc (strnlen src (sz - 1))) dest"
proof -
  let ?S = "takeWhile (\<lambda>b. b \<noteq> 0) (take (sz - 1) src)"
  let ?len = "min (strlen src) (sz - 1)"
  have S: "take ?len src = ?S"
    unfolding strlen_def by (rule take_min_takeWhile)
  then have lenS: "length ?S = ?len"
    by (metis length_take min.absorb2 min.cobounded1 length_takeWhile_le strlen_def order_trans)
  have lt: "?len < length dest" using assms by simp
  have d: "drop ?len dest = dest ! ?len # drop (Suc ?len) dest"
    using lt by (simp add: Cons_nth_drop_Suc)
  have "fst (strlcpy dest src sz) = (take ?len src @ drop ?len dest)[?len := 0]"
    using assms(1) by (simp add: strlcpy_def Let_def memcpy_def strlcpy_len)
  also have "\<dots> = (?S @ dest ! ?len # drop (Suc ?len) dest)[length ?S := 0]"
    by (simp only: S lenS d)
  also have "\<dots> = ?S @ 0 # drop (Suc ?len) dest"
    by (rule list_update_length)
  finally show ?thesis using lenS by (simp add: strnlen_def)
qed

text \<open>
  The bytes that follow the first \<open>sz\<close> bytes of the source have no influence on what
  is stored, whatever the scan for the length finds among them.
\<close>

lemma strlcpy_overread:
  assumes "0 < sz" and "sz \<le> length dest" and "sz \<le> length src"
  shows "fst (strlcpy dest (src @ beyond) sz) = fst (strlcpy dest src sz)"
  using assms by (simp add: strlcpy_fst strnlen_def)

lemma strnlen_terminated:
  assumes "\<forall>b \<in> set S. b \<noteq> 0" and "length S < n"
  shows "strnlen (S @ 0 # rest) n = length S"
proof -
  have "take n (S @ 0 # rest) = S @ 0 # take (n - Suc (length S)) rest"
    using assms(2) by (simp add: take_Cons')
  then show ?thesis using assms(1) by (simp add: strnlen_def takeWhile_tail)
qed

lemma strlcpy_secret_ok:
  assumes "length dest = MAXBYTES" and "0 < sz" and "sz \<le> MAXBYTES"
  shows "secret_ok (fst (strlcpy dest src sz))"
proof -
  let ?S = "takeWhile (\<lambda>b. b \<noteq> 0) (take (sz - 1) src)"
  have eq: "fst (strlcpy dest src sz) = ?S @ 0 # drop (Suc (strnlen src (sz - 1))) dest"
    using assms by (simp add: strlcpy_fst)
  have lS: "length ?S = strnlen src (sz - 1)" by (simp add: strnlen_def)
  have b: "strnlen src (sz - 1) \<le> sz - 1" by (rule strnlen_le)
  then have lt: "length ?S < MAXBYTES" using assms lS by simp
  have nz: "\<forall>b \<in> set ?S. b \<noteq> 0" by (auto dest: set_takeWhileD)
  have "strnlen (fst (strlcpy dest src sz)) MAXBYTES = length ?S"
    unfolding eq using nz lt by (rule strnlen_terminated)
  moreover have "length (fst (strlcpy dest src sz)) = MAXBYTES"
    unfolding eq using assms lS b by simp
  ultimately show ?thesis using lt by (simp add: secret_ok_def)
qed

subsection \<open>The paths through read and write\<close>

lemma copy_from_user_ok:
  "fst (copy_from_user (replicate n 0) ufrom n) = 0 \<Longrightarrow>
     copy_from_user (replicate n 0) ufrom n = (0, take n ufrom) \<and> n \<le> length ufrom"
  by (auto simp: copy_from_user_def Let_def min_def split: if_splits)

lemma write_commit:
  assumes "unat count \<le> MAXBYTES" and "0 < unat count"
      and "fst (copy_from_user (replicate (unat count) 0) ubuf (unat count)) = 0"
  shows "write_miscdrv_rdwr c True ubuf count =
           (Some (int (unat count)),
            c\<lparr>oursecret := fst (strlcpy (oursecret c) (take (unat count) ubuf) (unat count)),
               rx := rx c + ucast count\<rparr>,
            [Kvmalloc (unat count) True, CopyFromUser (unat count), Kvfree])"
proof -
  have "unat count < 2 ^ 31" using assms(1) by (simp add: MAXBYTES_def)
  then have "sint (ucast count :: c_int) = int (unat count)" by (rule sint_ucast_small)
  moreover note copy_from_user_ok [OF assms(3)]
  ultimately show ?thesis using assms(1,2)
    by (simp add: write_miscdrv_rdwr_def kvmalloc_def Let_def)
qed

lemma write_count_zero:
  "write_miscdrv_rdwr c True ubuf 0 = (None, c, [Kvmalloc 0 True, CopyFromUser 0])"
  by (simp add: write_miscdrv_rdwr_def kvmalloc_def Let_def)

lemma read_copy_ok:
  assumes "MAXBYTES \<le> unat count"
      and "0 < strnlen (oursecret c) MAXBYTES"
      and "fst (copy_to_user ubuf (oursecret c) (strnlen (oursecret c) MAXBYTES)) = 0"
  shows "read_miscdrv_rdwr c ubuf count =
           (int (strnlen (oursecret c) MAXBYTES),
            c\<lparr>tx := tx c + of_nat (strnlen (oursecret c) MAXBYTES)\<rparr>,
            take (strnlen (oursecret c) MAXBYTES) (oursecret c)
              @ drop (strnlen (oursecret c) MAXBYTES) ubuf)"
proof -
  let ?n = "strnlen (oursecret c) MAXBYTES"
  have n: "?n \<le> 128" using strnlen_le [of "oursecret c" MAXBYTES] by (simp add: MAXBYTES_def)
  have s: "sint (of_nat ?n :: c_int) = int ?n" using n by (simp add: sint_of_nat_small)
  have u: "unat (of_nat ?n :: c_int) = ?n" using n by (simp add: unat_of_nat_small)
  show ?thesis using assms s u
    by (simp add: read_miscdrv_rdwr_def Let_def copy_to_user_def split: prod.splits)
qed

lemma read_result_le:
  "fst (read_miscdrv_rdwr c ubuf count) \<le> int (strnlen (oursecret c) MAXBYTES)"
proof -
  let ?n = "strnlen (oursecret c) MAXBYTES"
  have n: "?n \<le> 128" using strnlen_le [of "oursecret c" MAXBYTES] by (simp add: MAXBYTES_def)
  have s: "sint (of_nat ?n :: c_int) = int ?n" using n by (simp add: sint_of_nat_small)
  show ?thesis using s
    by (simp add: read_miscdrv_rdwr_def Let_def errno_values split: prod.splits)
qed

lemma read_ctx:
  "oursecret (fst (snd (read_miscdrv_rdwr c ubuf count))) = oursecret c"
  by (simp add: read_miscdrv_rdwr_def Let_def split: prod.splits)

subsection \<open>The state after initialisation\<close>

lemma init_secret:
  "snd (miscdrv_init 0 True) = Some \<lparr>tx = 0, rx = 0, err = 0, myword = 0, config1 = 0,
      config2 = 0, config3 = 0, oursecret = initmsg @ 0 # replicate 120 0\<rparr>"
  by (simp add: miscdrv_init_def kzalloc_ctx_def strlcpy_fst strnlen_def
      initmsg_def MAXBYTES_def)

lemma ctx_after_init_eq:
  "ctx_after_init = \<lparr>tx = 0, rx = 0, err = 0, myword = 0, config1 = 0,
      config2 = 0, config3 = 0, oursecret = initmsg @ 0 # replicate 120 0\<rparr>"
  by (simp add: ctx_after_init_def init_secret)

lemma init_returns_ctx: "miscdrv_init 0 True = (0, Some ctx_after_init)"
  by (simp add: miscdrv_init_def ctx_after_init_def)

lemma strnlen_ctx_after_init: "strnlen (oursecret ctx_after_init) MAXBYTES = 7"
  by (simp add: ctx_after_init_eq strnlen_def initmsg_def MAXBYTES_def)

lemma secret_ok_init: "secret_ok (oursecret ctx_after_init)"
  by (simp add: ctx_after_init_eq secret_ok_def strnlen_def initmsg_def MAXBYTES_def)

lemma reachable_state_after_init: "reachable state_after_init"
  by (rule reachable_init)
     (simp add: attached_def state_after_init_def ctx_after_init_def init_secret)

subsection \<open>The secret stays terminated\<close>

lemma write_secret_ok:
  assumes "secret_ok (oursecret c)"
  shows "secret_ok (oursecret (fst (snd (write_miscdrv_rdwr c ok ubuf count))))"
proof (cases "unat count \<le> MAXBYTES \<and> ok \<and> 0 < unat count
              \<and> fst (copy_from_user (replicate (unat count) 0) ubuf (unat count)) = 0")
  case True
  from assms have "length (oursecret c) = MAXBYTES" by (simp add: secret_ok_def)
  then have "secret_ok (fst (strlcpy (oursecret c) (take (unat count) ubuf) (unat count)))"
    using True by (simp add: strlcpy_secret_ok)
  then show ?thesis using True by (simp add: write_commit)
next
  case False
  then show ?thesis using assms
    by (auto simp: write_miscdrv_rdwr_def kvmalloc_def Let_def split: prod.splits)
qed

lemma attached_secret_ok: "attached s \<Longrightarrow> secret_ok (oursecret (ctx s))"
  using secret_ok_init by (simp add: attached_def ctx_after_init_def)

lemma fop_step_secret_ok:
  "secret_ok (oursecret (ctx s)) \<Longrightarrow> secret_ok (oursecret (ctx (fop_step f s)))"
  by (cases f)
     (simp_all add: open_miscdrv_rdwr_def close_miscdrv_rdwr_def read_ctx write_secret_ok)

lemma reachable_secret_ok: "reachable s \<Longrightarrow> secret_ok (oursecret (ctx s))"
  by (induction rule: reachable.induct) (simp_all add: attached_secret_ok fop_step_secret_ok)

subsection \<open>More on write\<close>

lemma write_oversize:
  "MAXBYTES < unat count \<Longrightarrow>
     write_miscdrv_rdwr c ok ubuf count = (Some (sint (ucast count :: c_int)), c, [])"
  by (simp add: write_miscdrv_rdwr_def Let_def)

lemma length_secret_after_init: "length (oursecret ctx_after_init) = MAXBYTES"
  by (simp add: ctx_after_init_eq initmsg_def MAXBYTES_def)

text \<open>
  A write of the whole of \<open>P\<close> followed by a read: what comes back is the string found
  in \<open>P\<close> without its last byte.
\<close>

lemma write_then_read:
  assumes len: "length (oursecret c) = MAXBYTES"
      and P: "0 < length P" "length P \<le> MAXBYTES"
      and cnt: "MAXBYTES \<le> unat count'"
      and ub: "length P \<le> length ubuf"
  shows "fst (write_miscdrv_rdwr c True P (of_nat (length P))) = Some (int (length P))
    \<and> (let c' = fst (snd (write_miscdrv_rdwr c True P (of_nat (length P))));
            S = takeWhile (\<lambda>b. b \<noteq> 0) (butlast P)
        in read_miscdrv_rdwr c' ubuf count' =
             (if S = [] then (- 22, c', ubuf)
              else (int (length S), c'\<lparr>tx := tx c' + of_nat (length S)\<rparr>,
                    S @ drop (length S) ubuf)))"
proof -
  let ?n = "length P"
  let ?S = "takeWhile (\<lambda>b. b \<noteq> 0) (butlast P)"
  let ?c' = "fst (snd (write_miscdrv_rdwr c True P (of_nat ?n)))"
  have un: "unat (of_nat ?n :: size_t) = ?n"
    using P(2) by (simp add: unat_of_nat MAXBYTES_def)
  have le: "unat (of_nat ?n :: size_t) \<le> MAXBYTES" using P(2) un by simp
  have pos: "0 < unat (of_nat ?n :: size_t)" using P(1) un by simp
  have cp: "fst (copy_from_user (replicate (unat (of_nat ?n :: size_t)) 0) P
                   (unat (of_nat ?n :: size_t))) = 0"
    by (simp add: un copy_from_user_def)
  note w = write_commit [OF le pos cp, of c, unfolded un]
  have sec: "oursecret ?c' = ?S @ 0 # drop (Suc (length ?S)) (oursecret c)"
    using P len by (simp add: w strlcpy_fst butlast_conv_take strnlen_def)
  have "length (butlast P) < ?n" using P(1) by simp
  then have lS: "length ?S < ?n"
    by (rule order.strict_trans1 [OF length_takeWhile_le])
  have nz: "\<forall>b \<in> set ?S. b \<noteq> 0" by (auto dest: set_takeWhileD)
  have sl: "strnlen (oursecret ?c') MAXBYTES = length ?S"
    unfolding sec using nz lS P(2) by (intro strnlen_terminated) simp_all
  have ret: "fst (write_miscdrv_rdwr c True P (of_nat ?n)) = Some (int ?n)"
    by (simp add: w)
  have rd: "read_miscdrv_rdwr ?c' ubuf count' =
             (if ?S = [] then (- 22, ?c', ubuf)
              else (int (length ?S), ?c'\<lparr>tx := tx ?c' + of_nat (length ?S)\<rparr>,
                    ?S @ drop (length ?S) ubuf))"
  proof (cases "?S = []")
    case True
    then have "strnlen (oursecret ?c') MAXBYTES = 0" using sl by simp
    then show ?thesis using True
      by (simp add: read_miscdrv_rdwr_def Let_def errno_values)
  next
    case False
    then have pos: "0 < strnlen (oursecret ?c') MAXBYTES" using sl by simp
    have cpo: "fst (copy_to_user ubuf (oursecret ?c') (strnlen (oursecret ?c') MAXBYTES)) = 0"
      using lS ub by (simp add: sl copy_to_user_def Let_def)
    have tk: "take (length ?S) (oursecret ?c') = ?S"
      by (simp add: sec)
    from read_copy_ok [OF cnt pos cpo] show ?thesis
      using False by (simp add: sl tk)
  qed
  show ?thesis using ret rd by (simp add: Let_def)
qed

subsection \<open>The counters\<close>

lemma sint_add_nat:
  assumes "n \<le> 128" and "sint a + int n \<le> 2147483647"
  shows "sint (a + of_nat n :: c_int) = sint a + int n"
proof -
  have n: "sint (of_nat n :: c_int) = int n"
    using assms(1) by (simp add: sint_of_nat_small)
  have lo: "- (2 ^ 31) \<le> sint a" using sint_ge [of a] by simp
  have "sint (a + of_nat n) = signed_take_bit 31 (sint a + int n)"
    by (simp add: sint_word_ariths n)
  also have "\<dots> = sint a + int n"
    using lo assms by (intro signed_take_bit_int_eq_self) simp_all
  finally show ?thesis .
qed

lemma sint_add_small:
  assumes "n \<le> 128" and "sint a \<le> 2147483647 - 128"
  shows "sint (a + of_nat n :: c_int) = sint a + int n"
  using assms by (intro sint_add_nat) simp_all

lemma read_counters:
  "rx (fst (snd (read_miscdrv_rdwr c ubuf count))) = rx c
   \<and> (tx (fst (snd (read_miscdrv_rdwr c ubuf count))) = tx c
      \<or> (\<exists>n \<le> 128. tx (fst (snd (read_miscdrv_rdwr c ubuf count))) = tx c + of_nat n))"
proof -
  have "strnlen (oursecret c) MAXBYTES \<le> 128"
    using strnlen_le [of "oursecret c" MAXBYTES] by (simp add: MAXBYTES_def)
  then show ?thesis
    by (auto simp: read_miscdrv_rdwr_def Let_def split: prod.splits)
qed

lemma write_counters:
  "tx (fst (snd (write_miscdrv_rdwr c ok ubuf count))) = tx c
   \<and> (rx (fst (snd (write_miscdrv_rdwr c ok ubuf count))) = rx c
      \<or> (\<exists>n \<le> 128. rx (fst (snd (write_miscdrv_rdwr c ok ubuf count))) = rx c + of_nat n))"
proof (cases "unat count \<le> 128")
  case True
  have "(ucast count :: c_int) = of_nat (unat count)" by simp
  with True show ?thesis
    by (auto simp: write_miscdrv_rdwr_def kvmalloc_def Let_def MAXBYTES_def
        split: prod.splits)
next
  case False
  then show ?thesis
    by (simp add: write_miscdrv_rdwr_def Let_def MAXBYTES_def)
qed

lemma write_tx: "tx (fst (snd (write_miscdrv_rdwr c ok ubuf count))) = tx c"
  by (simp add: write_counters)

text \<open>A write that returns a value that is no errno has gone all the way.\<close>

lemma write_returns_count:
  assumes "unat count \<le> MAXBYTES"
      and "fst (write_miscdrv_rdwr c ok ubuf count) = Some r" and "0 \<le> r"
  shows "r = int (unat count) \<and> 0 < unat count
       \<and> rx (fst (snd (write_miscdrv_rdwr c ok ubuf count))) = rx c + ucast count"
proof -
  have "unat count < 2 ^ 31" using assms(1) by (simp add: MAXBYTES_def)
  then have "sint (ucast count :: c_int) = int (unat count)" by (rule sint_ucast_small)
  then show ?thesis using assms
    by (auto simp add: write_miscdrv_rdwr_def kvmalloc_def Let_def errno_values
        split: prod.splits if_splits)
qed

subsection \<open>Running many writes and reads\<close>

lemma reachable_run: "reachable s \<Longrightarrow> reachable (run fs s)"
  unfolding run_def
  by (induction fs arbitrary: s) (simp_all add: reachable_step)

lemma write128:
  assumes "length (oursecret c) = MAXBYTES"
  shows "write_miscdrv_rdwr c True payload128 128 =
           (Some 128, c\<lparr>oursecret := replicate 127 0x41 @ [0], rx := rx c + 128\<rparr>,
            [Kvmalloc 128 True, CopyFromUser 128, Kvfree])"
proof -
  have a: "unat (128 :: size_t) \<le> MAXBYTES" by (simp add: MAXBYTES_def)
  have p: "0 < unat (128 :: size_t)" by simp
  have b: "fst (copy_from_user (replicate (unat (128 :: size_t)) 0) payload128
                  (unat (128 :: size_t))) = 0"
    by (simp add: copy_from_user_def payload128_def)
  have t: "take 128 payload128 = payload128" by (simp add: payload128_def)
  have w: "write_miscdrv_rdwr c True payload128 128 =
             (Some 128, c\<lparr>oursecret := fst (strlcpy (oursecret c) payload128 128),
                           rx := rx c + 128\<rparr>,
              [Kvmalloc 128 True, CopyFromUser 128, Kvfree])"
    using write_commit [OF a p b, of c] by (simp add: t)
  have "fst (strlcpy (oursecret c) payload128 128) = replicate 127 0x41 @ [0]"
    using assms by (simp add: strlcpy_fst payload128_def strnlen_def MAXBYTES_def)
  then show ?thesis
    by (simp add: w)
qed

lemma step_write128:
  assumes "length (oursecret (ctx s)) = MAXBYTES"
  shows "fop_step (Write True payload128 128) s =
           s\<lparr>ctx := (ctx s)\<lparr>oursecret := replicate 127 0x41 @ [0], rx := rx (ctx s) + 128\<rparr>\<rparr>"
  by (simp add: write128 [OF assms])

lemma run_write128:
  assumes "length (oursecret (ctx s)) = MAXBYTES"
  shows "run (replicate (Suc n) (Write True payload128 128)) s =
           s\<lparr>ctx := (ctx s)\<lparr>oursecret := replicate 127 0x41 @ [0],
                              rx := rx (ctx s) + 128 * of_nat (Suc n)\<rparr>\<rparr>"
  using assms
proof (induction n arbitrary: s)
  case 0
  then show ?case by (simp add: run_def step_write128 del: fop_step.simps)
next
  case (Suc n)
  let ?s' = "fop_step (Write True payload128 128) s"
  have l: "length (oursecret (ctx ?s')) = MAXBYTES"
    using Suc.prems by (simp add: step_write128 MAXBYTES_def del: fop_step.simps)
  have "run (replicate (Suc (Suc n)) (Write True payload128 128)) s
          = run (replicate (Suc n) (Write True payload128 128)) ?s'"
    by (simp add: run_def)
  also note Suc.IH [OF l]
  finally show ?case using Suc.prems
    by (simp add: step_write128 algebra_simps del: fop_step.simps)
qed

lemma state_near_wrap_eq:
  "state_near_wrap = state_after_init\<lparr>ctx := ctx_after_init
      \<lparr>oursecret := replicate 127 0x41 @ [0], rx := 2147483520\<rparr>\<rparr>"
proof -
  have l: "length (oursecret (ctx state_after_init)) = MAXBYTES"
    by (simp add: state_after_init_def ctx_after_init_eq initmsg_def MAXBYTES_def)
  from run_write128 [OF l, of 16777214] show ?thesis
    by (simp add: state_near_wrap_def) (simp add: state_after_init_def ctx_after_init_eq)
qed

lemma reachable_state_near_wrap: "reachable state_near_wrap"
  unfolding state_near_wrap_def by (rule reachable_run [OF reachable_state_after_init])

lemma strnlen_letters: "strnlen (replicate 127 0x41 @ [0]) MAXBYTES = 127"
  using strnlen_terminated [of "replicate 127 0x41" MAXBYTES "[]"]
  by (simp add: MAXBYTES_def)

lemma read127:
  assumes "oursecret c = replicate 127 0x41 @ [0]"
  shows "read_miscdrv_rdwr c (replicate 128 0) 128 =
           (127, c\<lparr>tx := tx c + 127\<rparr>, replicate 127 0x41 @ [0])"
proof -
  have n: "strnlen (oursecret c) MAXBYTES = 127"
    by (simp add: assms strnlen_letters)
  have a: "MAXBYTES \<le> unat (128 :: size_t)" by (simp add: MAXBYTES_def)
  have b: "0 < strnlen (oursecret c) MAXBYTES" by (simp add: n)
  have cp: "fst (copy_to_user (replicate 128 0) (oursecret c)
                   (strnlen (oursecret c) MAXBYTES)) = 0"
    by (simp add: n copy_to_user_def)
  from read_copy_ok [OF a b cp] show ?thesis
    by (simp add: n) (simp add: assms)
qed

lemma run_read127:
  assumes "oursecret (ctx s) = replicate 127 0x41 @ [0]"
  shows "run (replicate n (Read (replicate 128 0) 128)) s =
           s\<lparr>ctx := (ctx s)\<lparr>tx := tx (ctx s) + 127 * of_nat n\<rparr>\<rparr>"
  using assms
proof (induction n arbitrary: s)
  case 0
  then show ?case by (simp add: run_def)
next
  case (Suc n)
  let ?s' = "fop_step (Read (replicate 128 0) 128) s"
  have st: "?s' = s\<lparr>ctx := (ctx s)\<lparr>tx := tx (ctx s) + 127\<rparr>\<rparr>"
    by (simp add: read127 [OF Suc.prems])
  have l: "oursecret (ctx ?s') = replicate 127 0x41 @ [0]"
    using Suc.prems by (simp add: st del: fop_step.simps)
  have "run (replicate (Suc n) (Read (replicate 128 0) 128)) s
          = run (replicate n (Read (replicate 128 0) 128)) ?s'"
    by (simp add: run_def)
  also note Suc.IH [OF l]
  finally show ?case
    by (simp add: st algebra_simps del: fop_step.simps)
qed

lemma state_tx_near_wrap_eq:
  "state_tx_near_wrap = state_after_init\<lparr>ctx := ctx_after_init
      \<lparr>oursecret := replicate 127 0x41 @ [0], rx := 128, tx := 2147483640\<rparr>\<rparr>"
proof -
  let ?s1 = "fop_step (Write True payload128 128) state_after_init"
  have l: "length (oursecret (ctx state_after_init)) = MAXBYTES"
    by (simp add: state_after_init_def ctx_after_init_eq initmsg_def MAXBYTES_def)
  have s1: "?s1 = state_after_init\<lparr>ctx := ctx_after_init
              \<lparr>oursecret := replicate 127 0x41 @ [0], rx := 128\<rparr>\<rparr>"
    by (simp add: step_write128 [OF l] del: fop_step.simps)
       (simp add: state_after_init_def ctx_after_init_eq)
  have o: "oursecret (ctx ?s1) = replicate 127 0x41 @ [0]"
    by (simp add: s1 del: fop_step.simps)
  have "state_tx_near_wrap = run (replicate 16909320 (Read (replicate 128 0) 128)) ?s1"
    by (simp add: state_tx_near_wrap_def run_def)
  also note run_read127 [OF o, of 16909320]
  finally show ?thesis
    by (simp add: s1 del: fop_step.simps) (simp add: state_after_init_def ctx_after_init_eq)
qed

lemma reachable_state_tx_near_wrap: "reachable state_tx_near_wrap"
  unfolding state_tx_near_wrap_def by (rule reachable_run [OF reachable_state_after_init])

section \<open>The claims\<close>

text \<open>
  C1. A write with \<open>count > MAXBYTES\<close> should fail with \<^verbatim>\<open>-EINVAL\<close> and touch nothing.
  The code leaves the context alone, allocates nothing and copies nothing, but the
  value it returns is \<^verbatim>\<open>int ret = count\<close>, never replaced by an errno before the jump
  to \<^verbatim>\<open>out_nomem\<close>: a write of 200 bytes right after initialisation returns 200, the
  report of a complete write.
\<close>

theorem write_200_reports_success:
  "write_miscdrv_rdwr ctx_after_init True (replicate 200 0x41) 200
     = (Some 200, ctx_after_init, [])
   \<and> map_option outcome (fst (write_miscdrv_rdwr ctx_after_init True (replicate 200 0x41) 200))
       = Some (Inr 200)
   \<and> map_option outcome (fst (write_miscdrv_rdwr ctx_after_init True (replicate 200 0x41) 200))
       \<noteq> Some (Inl InvalidArgument)"
proof -
  have "MAXBYTES < unat (200 :: size_t)" by (simp add: MAXBYTES_def)
  then have "write_miscdrv_rdwr ctx_after_init True (replicate 200 0x41) 200
               = (Some (sint (ucast (200 :: size_t) :: c_int)), ctx_after_init, [])"
    by (rule write_oversize)
  then show ?thesis by (simp add: outcome_def)
qed

text \<open>
  C2. The round trip as claimed, \<^verbatim>\<open>Write(P, len(P))\<close> then a read returning \<open>P\<close>, does not
  hold: \<^verbatim>\<open>strlcpy\<close> is given \<open>count\<close> as the size of the string with its terminator, so
  the last of the \<open>count\<close> bytes is not stored. Writing the five bytes \<^verbatim>\<open>hello\<close> and
  reading 128 returns the four bytes \<^verbatim>\<open>hell\<close>, and \<open>tx = 4\<close>.
\<close>

theorem hello_roundtrip_counterexample:
  "fst (write_miscdrv_rdwr ctx_after_init True hello 5) = Some 5
   \<and> fst (read_miscdrv_rdwr (fst (snd (write_miscdrv_rdwr ctx_after_init True hello 5)))
             (replicate 128 0) 128) = 4
   \<and> take 5 (snd (snd (read_miscdrv_rdwr
                          (fst (snd (write_miscdrv_rdwr ctx_after_init True hello 5)))
                          (replicate 128 0) 128))) \<noteq> hello
   \<and> tx (fst (snd (read_miscdrv_rdwr
                      (fst (snd (write_miscdrv_rdwr ctx_after_init True hello 5)))
                      (replicate 128 0) 128))) = 4"
proof -
  have a: "0 < length hello" "length hello \<le> MAXBYTES"
    "MAXBYTES \<le> unat (128 :: size_t)"
    "length hello \<le> length (replicate 128 (0 :: byte))"
    by (simp_all add: hello_def MAXBYTES_def)
  have t: "tx ctx_after_init = 0" by (simp add: ctx_after_init_eq)
  have l: "of_nat (length hello) = (5 :: size_t)"
    "takeWhile (\<lambda>b. b \<noteq> 0) (butlast hello) = [0x68, 0x65, 0x6c, 0x6c]"
    by (simp_all add: hello_def)
  from write_then_read [OF length_secret_after_init a]
  show ?thesis
    by (simp add: Let_def l write_tx t) (simp add: hello_def)
qed

text \<open>
  C2, amended. For every payload \<open>P\<close> with \<open>0 < len(P) \<le> MAXBYTES\<close>, a successful
  \<^verbatim>\<open>Write(P, len(P))\<close> returns \<open>len(P)\<close>, and a following read with \<open>count' \<ge> MAXBYTES\<close>
  into a buffer with room for it returns the string \<open>S\<close> held in \<open>P\<close> without its last
  byte (the bytes before the first zero byte): \<open>len(S)\<close> bytes equal to \<open>S\<close>, with
  \<open>len(S)\<close> added to \<open>tx\<close>; when \<open>S\<close> is empty the read fails with \<^verbatim>\<open>-EINVAL\<close>. So a
  string comes back whole when it is written with its terminator counted: the witness
  writes the six bytes of \<^verbatim>\<open>hello\<close> and a zero byte and reads back the five bytes
  \<^verbatim>\<open>hello\<close>, \<open>tx = 5\<close>.
\<close>

theorem write_read_roundtrip_terminated:
  assumes "length (oursecret c) = MAXBYTES"
      and "0 < length P" and "length P \<le> MAXBYTES"
      and "MAXBYTES \<le> unat count'"
      and "length P \<le> length ubuf"
  shows "fst (write_miscdrv_rdwr c True P (of_nat (length P))) = Some (int (length P))
    \<and> (let c' = fst (snd (write_miscdrv_rdwr c True P (of_nat (length P))));
            S = takeWhile (\<lambda>b. b \<noteq> 0) (butlast P)
        in read_miscdrv_rdwr c' ubuf count' =
             (if S = [] then (- 22, c', ubuf)
              else (int (length S), c'\<lparr>tx := tx c' + of_nat (length S)\<rparr>,
                    S @ drop (length S) ubuf)))"
  using assms by (rule write_then_read)

theorem write_read_roundtrip_terminated_witness:
  "length (oursecret ctx_after_init) = MAXBYTES
   \<and> 0 < length (hello @ [0]) \<and> length (hello @ [0]) \<le> MAXBYTES
   \<and> MAXBYTES \<le> unat (128 :: size_t)
   \<and> length (hello @ [0]) \<le> length (replicate 128 (0 :: byte))
   \<and> fst (write_miscdrv_rdwr ctx_after_init True (hello @ [0]) 6) = Some 6
   \<and> fst (read_miscdrv_rdwr (fst (snd (write_miscdrv_rdwr ctx_after_init True (hello @ [0]) 6)))
             (replicate 128 0) 128) = 5
   \<and> take 5 (snd (snd (read_miscdrv_rdwr
                          (fst (snd (write_miscdrv_rdwr ctx_after_init True (hello @ [0]) 6)))
                          (replicate 128 0) 128))) = hello
   \<and> tx (fst (snd (read_miscdrv_rdwr
                      (fst (snd (write_miscdrv_rdwr ctx_after_init True (hello @ [0]) 6)))
                      (replicate 128 0) 128))) = 5"
proof -
  have a: "0 < length (hello @ [0])" "length (hello @ [0]) \<le> MAXBYTES"
    "MAXBYTES \<le> unat (128 :: size_t)"
    "length (hello @ [0]) \<le> length (replicate 128 (0 :: byte))"
    by (simp_all add: hello_def MAXBYTES_def)
  have t: "tx ctx_after_init = 0" by (simp add: ctx_after_init_eq)
  have l: "length hello = 5" "of_nat (length (hello @ [0])) = (6 :: size_t)"
    "takeWhile (\<lambda>b. b \<noteq> 0) hello = hello" "hello \<noteq> []"
    by (simp_all add: hello_def)
  from write_read_roundtrip_terminated [OF length_secret_after_init a]
  show ?thesis using length_secret_after_init a
    by (simp add: Let_def l write_tx t)
qed

text \<open>
  C3. A write with \<open>count = 0\<close> should return 0 and leave an empty secret, so that the
  next read fails with \<^verbatim>\<open>-EINVAL\<close>. The code does neither. \<^verbatim>\<open>kvmalloc(0)\<close> hands back
  \<^verbatim>\<open>ZERO_SIZE_PTR\<close>, and \<^verbatim>\<open>strlcpy\<close> runs \<^verbatim>\<open>strlen\<close> on it before it looks at the size: the
  call faults without returning a value and without freeing the staging pointer. The
  secret is as before: right after initialisation it still has length 7, and a read
  of 128 returns 7 bytes.
\<close>

theorem write_zero_faults:
  "write_miscdrv_rdwr ctx_after_init True [] 0
     = (None, ctx_after_init, [Kvmalloc 0 True, CopyFromUser 0])
   \<and> fst (write_miscdrv_rdwr ctx_after_init True [] 0) \<noteq> Some 0
   \<and> strnlen (oursecret (fst (snd (write_miscdrv_rdwr ctx_after_init True [] 0)))) MAXBYTES = 7
   \<and> outcome (fst (read_miscdrv_rdwr (fst (snd (write_miscdrv_rdwr ctx_after_init True [] 0)))
                     (replicate 128 0) 128)) = Inr 7"
proof -
  have r: "read_miscdrv_rdwr ctx_after_init (replicate 128 0) 128
             = (7, ctx_after_init\<lparr>tx := tx ctx_after_init + 7\<rparr>,
                take 7 (oursecret ctx_after_init) @ drop 7 (replicate 128 0))"
    using read_copy_ok [of 128 ctx_after_init "replicate 128 0", unfolded strnlen_ctx_after_init]
    by (simp add: MAXBYTES_def copy_to_user_def)
  show ?thesis
    by (simp add: write_count_zero r strnlen_ctx_after_init outcome_def)
qed

text \<open>
  C4. As claimed, without a bound on \<open>tx\<close>, the statement fails: \<open>tx\<close> is a 32-bit
  \<^verbatim>\<open>int\<close>. \<open>state_tx_near_wrap\<close> is reached from initialisation by one write of 128 bytes
  and 16909320 reads and has \<open>tx = 2147483640\<close>; the next read meets every condition of
  the claim and returns 127, and leaves \<open>tx\<close> at \<open>-2147483529\<close>, not 127 higher.
\<close>

theorem tx_wraps_on_read_counterexample:
  "reachable state_tx_near_wrap
   \<and> MAXBYTES \<le> unat (128 :: size_t)
   \<and> strnlen (oursecret (ctx state_tx_near_wrap)) MAXBYTES = 127
   \<and> fst (copy_to_user (replicate 128 0) (oursecret (ctx state_tx_near_wrap)) 127) = 0
   \<and> fst (read_miscdrv_rdwr (ctx state_tx_near_wrap) (replicate 128 0) 128) = 127
   \<and> sint (tx (ctx state_tx_near_wrap)) = 2147483640
   \<and> sint (tx (fst (snd (read_miscdrv_rdwr (ctx state_tx_near_wrap) (replicate 128 0) 128))))
       = - 2147483529"
proof -
  have o: "oursecret (ctx state_tx_near_wrap) = replicate 127 0x41 @ [0]"
    by (simp add: state_tx_near_wrap_eq)
  have n: "strnlen (oursecret (ctx state_tx_near_wrap)) MAXBYTES = 127"
    by (simp only: o strnlen_letters)
  have cp: "fst (copy_to_user (replicate 128 0) (oursecret (ctx state_tx_near_wrap)) 127) = 0"
    by (simp add: copy_to_user_def)
  have t: "sint (tx (ctx state_tx_near_wrap)) = 2147483640"
    by (simp add: state_tx_near_wrap_eq)
  have t': "sint (tx (ctx state_tx_near_wrap) + 127) = - 2147483529"
    by (simp add: state_tx_near_wrap_eq)
  show ?thesis
    using reachable_state_tx_near_wrap n cp t t'
    by (simp add: read127 [OF o] MAXBYTES_def)
qed

text \<open>
  C4, amended. A read with \<open>count \<ge> MAXBYTES\<close> on a context whose secret has a logical
  length \<open>secret_len > 0\<close>, whose copy to the user buffer succeeds, and whose counter
  satisfies \<open>tx + secret_len \<le> INT_MAX\<close> (as it does whenever \<open>tx \<le> INT_MAX - MAXBYTES\<close>)
  returns \<open>secret_len\<close>, delivers the first \<open>secret_len\<close> bytes of the stored secret into
  the user buffer, and leaves \<open>tx\<close> higher by exactly \<open>secret_len\<close>; nothing else in the
  context changes.
\<close>

theorem read_returns_secret:
  assumes "MAXBYTES \<le> unat count"
      and "0 < strnlen (oursecret c) MAXBYTES"
      and "fst (copy_to_user ubuf (oursecret c) (strnlen (oursecret c) MAXBYTES)) = 0"
      and "sint (tx c) + int (strnlen (oursecret c) MAXBYTES) \<le> 2147483647"
  shows "read_miscdrv_rdwr c ubuf count =
           (int (strnlen (oursecret c) MAXBYTES),
            c\<lparr>tx := tx c + of_nat (strnlen (oursecret c) MAXBYTES)\<rparr>,
            take (strnlen (oursecret c) MAXBYTES) (oursecret c)
              @ drop (strnlen (oursecret c) MAXBYTES) ubuf)
       \<and> sint (tx (fst (snd (read_miscdrv_rdwr c ubuf count))))
           = sint (tx c) + int (strnlen (oursecret c) MAXBYTES)"
proof -
  have n: "strnlen (oursecret c) MAXBYTES \<le> 128"
    using strnlen_le [of "oursecret c" MAXBYTES] by (simp add: MAXBYTES_def)
  note rd = read_copy_ok [OF assms(1-3)]
  have "sint (tx c + of_nat (strnlen (oursecret c) MAXBYTES))
          = sint (tx c) + int (strnlen (oursecret c) MAXBYTES)"
    using n assms(4) by (rule sint_add_nat)
  then show ?thesis by (simp add: rd)
qed

theorem read_returns_secret_witness:
  "MAXBYTES \<le> unat (128 :: size_t)
   \<and> 0 < strnlen (oursecret ctx_after_init) MAXBYTES
   \<and> fst (copy_to_user (replicate 128 0) (oursecret ctx_after_init)
            (strnlen (oursecret ctx_after_init) MAXBYTES)) = 0
   \<and> sint (tx ctx_after_init) + int (strnlen (oursecret ctx_after_init) MAXBYTES) \<le> 2147483647
   \<and> read_miscdrv_rdwr ctx_after_init (replicate 128 0) 128 =
       (7, ctx_after_init\<lparr>tx := 7\<rparr>, initmsg @ replicate 121 0)
   \<and> sint (tx (fst (snd (read_miscdrv_rdwr ctx_after_init (replicate 128 0) 128)))) = 7"
proof -
  have a: "MAXBYTES \<le> unat (128 :: size_t)" by (simp add: MAXBYTES_def)
  have b: "0 < strnlen (oursecret ctx_after_init) MAXBYTES"
    by (simp add: strnlen_ctx_after_init)
  have c: "fst (copy_to_user (replicate 128 0) (oursecret ctx_after_init)
                  (strnlen (oursecret ctx_after_init) MAXBYTES)) = 0"
    by (simp add: strnlen_ctx_after_init copy_to_user_def)
  have d: "sint (tx ctx_after_init) + int (strnlen (oursecret ctx_after_init) MAXBYTES)
             \<le> 2147483647"
    by (simp add: strnlen_ctx_after_init) (simp add: ctx_after_init_eq)
  from read_returns_secret [OF a b c d] a b c d show ?thesis
    by (simp add: strnlen_ctx_after_init) (simp add: ctx_after_init_eq initmsg_def)
qed

text \<open>
  C5. A read with \<open>count < MAXBYTES\<close> fails with \<^verbatim>\<open>-EINVAL\<close> (InvalidArgument); the user
  buffer and the whole context, \<open>tx\<close> included, are as before.
\<close>

theorem read_short_count:
  assumes "unat count < MAXBYTES"
  shows "read_miscdrv_rdwr c ubuf count = (- 22, c, ubuf)
       \<and> outcome (fst (read_miscdrv_rdwr c ubuf count)) = Inl InvalidArgument"
  using assms by (simp add: read_miscdrv_rdwr_def errno_values outcome_def Let_def)

theorem read_short_count_witness:
  "unat (127 :: size_t) < MAXBYTES
   \<and> read_miscdrv_rdwr ctx_after_init (replicate 127 0) 127
       = (- 22, ctx_after_init, replicate 127 0)
   \<and> outcome (fst (read_miscdrv_rdwr ctx_after_init (replicate 127 0) 127))
       = Inl InvalidArgument"
proof -
  have a: "unat (127 :: size_t) < MAXBYTES" by (simp add: MAXBYTES_def)
  from read_short_count [OF a, of ctx_after_init "replicate 127 0"] a show ?thesis
    by (simp add: outcome_def errno_values)
qed

text \<open>
  C6. A write with \<open>count \<le> MAXBYTES\<close> whose staging buffer was allocated and whose copy
  from the user fails returns \<^verbatim>\<open>-EFAULT\<close> (IOFault); the staging buffer is freed after
  the failed copy, and the context (secret, \<open>tx\<close>, \<open>rx\<close> and all other fields) is as
  before.
\<close>

theorem write_copy_fault:
  assumes "unat count \<le> MAXBYTES"
      and "fst (copy_from_user (replicate (unat count) 0) ubuf (unat count)) \<noteq> 0"
  shows "write_miscdrv_rdwr c True ubuf count =
           (Some (- 14), c, [Kvmalloc (unat count) True, CopyFromUser (unat count), Kvfree])
       \<and> map_option outcome (fst (write_miscdrv_rdwr c True ubuf count)) = Some (Inl IOFault)"
proof (cases "copy_from_user (replicate (unat count) 0) ubuf (unat count)")
  case (Pair left kbuf')
  have "0 < unat count"
    using assms(2) by (cases "unat count = 0") (simp_all add: copy_from_user_def)
  with Pair assms show ?thesis
    by (simp add: write_miscdrv_rdwr_def kvmalloc_def Let_def errno_values outcome_def)
qed

theorem write_copy_fault_witness:
  "unat (5 :: size_t) \<le> MAXBYTES
   \<and> fst (copy_from_user (replicate (unat (5 :: size_t)) 0) [0x68, 0x65] (unat (5 :: size_t)))
       \<noteq> 0
   \<and> write_miscdrv_rdwr ctx_after_init True [0x68, 0x65] 5 =
       (Some (- 14), ctx_after_init, [Kvmalloc 5 True, CopyFromUser 5, Kvfree])
   \<and> map_option outcome (fst (write_miscdrv_rdwr ctx_after_init True [0x68, 0x65] 5))
       = Some (Inl IOFault)"
proof -
  have a: "unat (5 :: size_t) \<le> MAXBYTES" by (simp add: MAXBYTES_def)
  have b: "fst (copy_from_user (replicate (unat (5 :: size_t)) 0) [0x68, 0x65]
                  (unat (5 :: size_t))) \<noteq> 0"
    by (simp add: copy_from_user_def)
  from write_copy_fault [OF a b, of ctx_after_init] a b show ?thesis
    by (simp add: outcome_def errno_values)
qed

text \<open>
  C7. As claimed, without a bound on \<open>rx\<close>, the statement fails: \<open>rx\<close> is a 32-bit
  \<^verbatim>\<open>int\<close>. In \<open>state_near_wrap\<close>, reached from initialisation by 16777215 writes of 128
  bytes, \<open>rx = 2147483520\<close>; one more write of 128 bytes succeeds, returns 128, and
  leaves \<open>rx\<close> at \<open>-2147483648\<close>, not 128 higher.
\<close>

theorem rx_wraps_on_write_counterexample:
  "reachable state_near_wrap
   \<and> unat (128 :: size_t) \<le> MAXBYTES
   \<and> fst (write_miscdrv_rdwr (ctx state_near_wrap) True payload128 128) = Some 128
   \<and> sint (rx (ctx state_near_wrap)) = 2147483520
   \<and> sint (rx (fst (snd (write_miscdrv_rdwr (ctx state_near_wrap) True payload128 128))))
       = - 2147483648"
proof -
  have l: "length (oursecret (ctx state_near_wrap)) = MAXBYTES"
    by (simp add: state_near_wrap_eq MAXBYTES_def)
  have t: "sint (rx (ctx state_near_wrap)) = 2147483520"
    by (simp add: state_near_wrap_eq)
  have t': "sint (rx (ctx state_near_wrap) + 128) = - 2147483648"
    by (simp add: state_near_wrap_eq)
  show ?thesis
    using reachable_state_near_wrap t t'
    by (simp add: write128 [OF l] MAXBYTES_def)
qed

text \<open>
  C7, amended. A write with \<open>count \<le> MAXBYTES\<close> that succeeds (returns a value that is
  no errno), made while \<open>rx + count \<le> INT_MAX\<close> (as it is whenever
  \<open>rx \<le> INT_MAX - MAXBYTES\<close>), returns \<open>count\<close> and leaves \<open>rx\<close> higher by exactly
  \<open>count\<close>, the length requested and not the length of the string stored. Such a write
  has \<open>count > 0\<close>: with \<open>count = 0\<close> the call does not return.
\<close>

theorem write_success_rx:
  assumes "unat count \<le> MAXBYTES"
      and "fst (write_miscdrv_rdwr c ok ubuf count) = Some r" and "0 \<le> r"
      and "sint (rx c) + int (unat count) \<le> 2147483647"
  shows "r = int (unat count) \<and> 0 < unat count
       \<and> sint (rx (fst (snd (write_miscdrv_rdwr c ok ubuf count))))
           = sint (rx c) + int (unat count)
       \<and> rx (fst (snd (write_miscdrv_rdwr c ok ubuf count))) = rx c + ucast count"
proof -
  note w = write_returns_count [OF assms(1-3)]
  have n: "unat count \<le> 128" using assms(1) by (simp add: MAXBYTES_def)
  have u: "(ucast count :: c_int) = of_nat (unat count)" by simp
  have "sint (rx c + of_nat (unat count)) = sint (rx c) + int (unat count)"
    using n assms(4) by (rule sint_add_nat)
  then have "sint (rx c + ucast count) = sint (rx c) + int (unat count)"
    by (simp only: u)
  with w show ?thesis by simp
qed

theorem write_success_rx_witness:
  "unat (5 :: size_t) \<le> MAXBYTES
   \<and> fst (write_miscdrv_rdwr ctx_after_init True hello 5) = Some 5 \<and> (0 :: int) \<le> 5
   \<and> sint (rx ctx_after_init) + int (unat (5 :: size_t)) \<le> 2147483647
   \<and> sint (rx (fst (snd (write_miscdrv_rdwr ctx_after_init True hello 5)))) = 5
   \<and> rx (fst (snd (write_miscdrv_rdwr ctx_after_init True hello 5))) = 5
   \<and> strnlen (oursecret (fst (snd (write_miscdrv_rdwr ctx_after_init True hello 5))))
        MAXBYTES = 4"
proof -
  have a: "unat (5 :: size_t) \<le> MAXBYTES" by (simp add: MAXBYTES_def)
  have p: "0 < unat (5 :: size_t)" by simp
  have cp: "fst (copy_from_user (replicate (unat (5 :: size_t)) 0) hello (unat (5 :: size_t)))
              = 0"
    by (simp add: copy_from_user_def hello_def)
  note w = write_commit [OF a p cp, of ctx_after_init]
  have b: "fst (write_miscdrv_rdwr ctx_after_init True hello 5) = Some 5"
    by (simp add: w)
  have z: "(0 :: int) \<le> 5" by simp
  have d: "sint (rx ctx_after_init) + int (unat (5 :: size_t)) \<le> 2147483647"
    by (simp add: ctx_after_init_eq)
  have n: "strnlen (oursecret (fst (snd (write_miscdrv_rdwr ctx_after_init True hello 5))))
             MAXBYTES = 4"
    by (simp add: w) (simp add: strlcpy_fst ctx_after_init_eq hello_def strnlen_def MAXBYTES_def)
  from write_success_rx [OF a b z d] a b d n show ?thesis
    by (simp add: ctx_after_init_eq)
qed

text \<open>
  C8. After a successful \<^verbatim>\<open>miscdrv_init\<close> the counters and configuration words of the
  context are zero and the secret is the seven bytes of \<^verbatim>\<open>"initmsg"\<close>, a terminator and
  zeroes up to 128 bytes; a first read with \<open>count = 128\<close> into a buffer of at least
  seven bytes returns 7, delivers \<^verbatim>\<open>"initmsg"\<close> and leaves \<open>tx = 7\<close>.
\<close>

theorem attach_then_read:
  assumes "miscdrv_init reg_ret kzalloc_ok = (r, Some c)" and "7 \<le> length ubuf"
  shows "r = 0 \<and> tx c = 0 \<and> rx c = 0 \<and> err c = 0 \<and> myword c = 0
       \<and> config1 c = 0 \<and> config2 c = 0 \<and> config3 c = 0
       \<and> oursecret c = initmsg @ 0 # replicate 120 0
       \<and> length initmsg = 7 \<and> length (oursecret c) = 128
       \<and> read_miscdrv_rdwr c ubuf 128 = (7, c\<lparr>tx := 7\<rparr>, initmsg @ drop 7 ubuf)"
proof -
  from assms(1) have ok: "reg_ret = 0" "kzalloc_ok" and r: "r = 0"
    by (auto simp: miscdrv_init_def split: if_splits)
  with assms(1) have c: "c = ctx_after_init"
    by (simp add: ctx_after_init_def)
  note n = strnlen_ctx_after_init
  have cp: "fst (copy_to_user ubuf (oursecret ctx_after_init) 7) = 0"
    using assms(2) by (simp add: copy_to_user_def)
  from read_copy_ok [of 128 ctx_after_init ubuf, unfolded n] cp
  have "read_miscdrv_rdwr ctx_after_init ubuf 128
          = (7, ctx_after_init\<lparr>tx := tx ctx_after_init + 7\<rparr>,
             take 7 (oursecret ctx_after_init) @ drop 7 ubuf)"
    by (simp add: MAXBYTES_def)
  then show ?thesis
    unfolding c r by (simp add: ctx_after_init_eq initmsg_def)
qed

theorem attach_then_read_witness:
  "miscdrv_init 0 True = (0, Some ctx_after_init) \<and> 7 \<le> length (replicate 128 (0::byte))
   \<and> tx ctx_after_init = 0 \<and> rx ctx_after_init = 0
   \<and> oursecret ctx_after_init = initmsg @ 0 # replicate 120 0
   \<and> read_miscdrv_rdwr ctx_after_init (replicate 128 0) 128
        = (7, ctx_after_init\<lparr>tx := 7\<rparr>, initmsg @ replicate 121 0)"
  using attach_then_read [OF init_returns_ctx, of "replicate 128 0"] init_returns_ctx
  by simp

text \<open>
  C9. The counters are C \<^verbatim>\<open>int\<close>s and nothing guards the additions, so they are not
  monotone for ever: \<open>state_near_wrap\<close> is reached from initialisation by 16777215 writes
  of 128 bytes and has \<open>rx = 2147483520\<close>; one more such write leaves \<open>rx\<close> at
  \<open>-2147483648\<close>.
\<close>

theorem rx_wraps_counterexample:
  "reachable state_near_wrap
   \<and> sint (rx (ctx (fop_step (Write True payload128 128) state_near_wrap)))
       < sint (rx (ctx state_near_wrap))"
proof -
  have r: "reachable state_near_wrap"
    unfolding state_near_wrap_def by (rule reachable_run [OF reachable_state_after_init])
  have l: "length (oursecret (ctx state_near_wrap)) = MAXBYTES"
    by (simp add: state_near_wrap_eq MAXBYTES_def)
  show ?thesis using r
    by (simp add: step_write128 [OF l] del: fop_step.simps) (simp add: state_near_wrap_eq)
qed

text \<open>
  C9, amended. No open, close, read or write call, failing or not, made while \<open>tx\<close> and
  \<open>rx\<close> are at most \<open>INT_MAX - MAXBYTES\<close> decreases either counter.
\<close>

theorem counters_monotone_below_wrap:
  assumes "sint (tx (ctx s)) \<le> 2147483647 - 128"
      and "sint (rx (ctx s)) \<le> 2147483647 - 128"
  shows "sint (tx (ctx s)) \<le> sint (tx (ctx (fop_step f s)))
       \<and> sint (rx (ctx s)) \<le> sint (rx (ctx (fop_step f s)))"
proof (cases f)
  case Open
  then show ?thesis by (simp add: open_miscdrv_rdwr_def)
next
  case Close
  then show ?thesis by (simp add: close_miscdrv_rdwr_def)
next
  case (Read ubuf count)
  from read_counters [of "ctx s" ubuf count] assms(1) Read show ?thesis
    by (auto simp: sint_add_small)
next
  case (Write ok ubuf count)
  from write_counters [of "ctx s" ok ubuf count] assms(2) Write show ?thesis
    by (auto simp: sint_add_small)
qed

theorem counters_monotone_below_wrap_witness:
  "sint (tx (ctx state_after_init)) \<le> 2147483647 - 128
   \<and> sint (rx (ctx state_after_init)) \<le> 2147483647 - 128
   \<and> sint (tx (ctx state_after_init))
       \<le> sint (tx (ctx (fop_step (Write True payload128 128) state_after_init)))
   \<and> sint (rx (ctx state_after_init))
       \<le> sint (rx (ctx (fop_step (Write True payload128 128) state_after_init)))
   \<and> sint (rx (ctx (fop_step (Write True payload128 128) state_after_init))) = 128"
proof -
  have a: "sint (tx (ctx state_after_init)) \<le> 2147483647 - 128"
    and b: "sint (rx (ctx state_after_init)) \<le> 2147483647 - 128"
    by (simp_all add: state_after_init_def ctx_after_init_eq)
  have l: "length (oursecret (ctx state_after_init)) = MAXBYTES"
    by (simp add: state_after_init_def length_secret_after_init)
  have v: "sint (rx (ctx (fop_step (Write True payload128 128) state_after_init))) = 128"
    by (simp add: step_write128 [OF l] del: fop_step.simps)
       (simp add: state_after_init_def ctx_after_init_eq)
  from counters_monotone_below_wrap [OF a b, of "Write True payload128 128"] a b v
  show ?thesis by simp
qed

text \<open>
  C10. In every state reachable from a successful initialisation by any sequence of
  open, close, read and write calls, the secret is 128 bytes long and holds a zero
  byte at the position of its logical length, which is at most 127; so no read returns
  more than 127.
\<close>

theorem reachable_secret_terminated:
  assumes "reachable s"
  shows "length (oursecret (ctx s)) = MAXBYTES
       \<and> strnlen (oursecret (ctx s)) MAXBYTES \<le> MAXBYTES - 1
       \<and> oursecret (ctx s) ! strnlen (oursecret (ctx s)) MAXBYTES = 0
       \<and> fst (read_miscdrv_rdwr (ctx s) ubuf count) \<le> 127"
proof -
  let ?sec = "oursecret (ctx s)"
  from assms have ok: "secret_ok ?sec" by (rule reachable_secret_ok)
  then have len: "length ?sec = MAXBYTES" and lt: "strnlen ?sec MAXBYTES < MAXBYTES"
    by (simp_all add: secret_ok_def)
  have tk: "take MAXBYTES ?sec = ?sec" using len by simp
  have "length (takeWhile (\<lambda>b. b \<noteq> 0) ?sec) < length ?sec"
    using lt len tk by (simp add: strnlen_def)
  then have "\<not> (?sec ! length (takeWhile (\<lambda>b. b \<noteq> 0) ?sec) \<noteq> 0)"
    by (rule nth_length_takeWhile)
  then have z: "?sec ! strnlen ?sec MAXBYTES = 0"
    using tk by (simp add: strnlen_def)
  have "fst (read_miscdrv_rdwr (ctx s) ubuf count) \<le> int (strnlen ?sec MAXBYTES)"
    by (rule read_result_le)
  then have "fst (read_miscdrv_rdwr (ctx s) ubuf count) \<le> 127"
    using lt by (simp add: MAXBYTES_def)
  with len lt z show ?thesis by simp
qed

theorem reachable_secret_terminated_witness:
  "reachable state_after_init
   \<and> length (oursecret (ctx state_after_init)) = MAXBYTES
   \<and> strnlen (oursecret (ctx state_after_init)) MAXBYTES \<le> MAXBYTES - 1
   \<and> oursecret (ctx state_after_init) ! strnlen (oursecret (ctx state_after_init)) MAXBYTES = 0
   \<and> fst (read_miscdrv_rdwr (ctx state_after_init) (replicate 128 0) 128) \<le> 127"
  using reachable_secret_terminated [OF reachable_state_after_init, of "replicate 128 0" 128]
    reachable_state_after_init
  by simp

end
